theory Spec2Isabelle
  imports Complex_Main
begin

section \<open>The streaming exchange of the chat page\<close>

text \<open>
  The repository's session engine is the function \<^verbatim>\<open>sendMessage\<close> of the page
  component \<^verbatim>\<open>Home\<close>. It appends the user's message, posts the request, reads the
  response body chunk by chunk, cuts every chunk at the line feeds, decodes the lines that
  start with \<^verbatim>\<open>data: \<close> and applies them to the React state. The development below
  embeds that function: the React state is a record that is passed through, every state
  setter is applied in program order, and the clock, the network and the platform's
  \<^verbatim>\<open>JSON.parse\<close> are inputs.

  A JavaScript string is represented by its UTF-8 bytes: a \<open>string\<close> below is a list
  of bytes, an ASCII character is one byte and any other character is the two to four
  bytes of its encoding. What a read delivers is a list of bytes as well, and
  \<open>decodeChunk\<close> below is the step from the one to the other.
\<close>

subsection \<open>JavaScript values\<close>

text \<open>
  The decoded payload has the TypeScript type \<^verbatim>\<open>any\<close>, and its fields are stored
  unchecked, so the fields of the state that receive them hold arbitrary values.
  \<open>JUndefined\<close> is also what reading a property that an object lacks gives. A number is
  kept by its value; the only thing the page asks of a number is whether it is zero.
\<close>

datatype js =
    JUndefined
  | JNull
  | JBool bool
  | JNum real
  | JStr string
  | JArr "js list"
  | JObj "(string \<times> js) list"

text \<open>What \<^verbatim>\<open>if (v)\<close> and \<^verbatim>\<open>v || w\<close> test.\<close>

fun truthy :: "js \<Rightarrow> bool" where
  "truthy JUndefined = False"
| "truthy JNull = False"
| "truthy (JBool b) = b"
| "truthy (JNum x) = (x \<noteq> 0)"
| "truthy (JStr s) = (s \<noteq> [])"
| "truthy (JArr xs) = True"
| "truthy (JObj kvs) = True"

text \<open>
  \<^verbatim>\<open>data.k\<close> for one of the property names the page reads. In an object the last
  member of that name counts; every other value that is not \<^verbatim>\<open>null\<close> has no such
  property. (Reading a property of \<^verbatim>\<open>null\<close> throws; \<open>decode\<close> below takes that
  branch before it calls \<open>get\<close>.)
\<close>

fun get :: "js \<Rightarrow> string \<Rightarrow> js" where
  "get (JObj kvs) k = (case map_of (rev kvs) k of None \<Rightarrow> JUndefined | Some v \<Rightarrow> v)"
| "get v k = JUndefined"

subsection \<open>Strings\<close>

text \<open>\<^verbatim>\<open>Date.now().toString()\<close>: the decimal digits of the clock reading.\<close>

fun toString :: "nat \<Rightarrow> string" where
  "toString n =
     (if n < 10 then [''0123456789'' ! n]
      else toString (n div 10) @ [''0123456789'' ! (n mod 10)])"

declare toString.simps [simp del]

text \<open>The number a list of decimal digits stands for.\<close>

definition digitsValue :: "string \<Rightarrow> nat" where
  "digitsValue ds = foldl (\<lambda>a c. 10 * a + (of_char c - 48)) 0 ds"

definition startsWith :: "string \<Rightarrow> string \<Rightarrow> bool" where
  "startsWith l p = (take (length p) l = p)"

text \<open>
  \<^verbatim>\<open>chunk.split('\n')\<close>: the pieces between the separators, so a text with
  \<open>n\<close> separators gives \<open>n + 1\<close> pieces and the empty text gives one empty piece.
\<close>

fun split_on :: "char \<Rightarrow> string \<Rightarrow> string list" where
  "split_on sep [] = [[]]"
| "split_on sep (c # cs) =
     (if c = sep then [] # split_on sep cs
      else (case split_on sep cs of
              [] \<Rightarrow> [[c]]
            | l # ls \<Rightarrow> (c # l) # ls))"

abbreviation LF :: char where
  "LF \<equiv> CHR 0x0A"

text \<open>
  \<^verbatim>\<open>!input.trim()\<close>: the input is empty once its white space is removed, that is,
  it consists of white space and line terminators only. These are the six ASCII ones,
  U+00A0 (two bytes), and U+1680, U+2000 to U+200A, U+2028, U+2029, U+202F, U+205F,
  U+3000 and U+FEFF (three bytes each).
\<close>

definition space1 :: "char \<Rightarrow> bool" where
  "space1 a = (a = CHR 0x09 \<or> a = CHR 0x0A \<or> a = CHR 0x0B \<or> a = CHR 0x0C \<or> a = CHR 0x0D
               \<or> a = CHR 0x20)"

definition space2 :: "char \<Rightarrow> char \<Rightarrow> bool" where
  "space2 a b = (a = CHR 0xC2 \<and> b = CHR 0xA0)"

definition space3 :: "char \<Rightarrow> char \<Rightarrow> char \<Rightarrow> bool" where
  "space3 a b c =
     (a = CHR 0xE1 \<and> b = CHR 0x9A \<and> c = CHR 0x80
      \<or> a = CHR 0xE2 \<and> b = CHR 0x80
          \<and> ((0x80::nat) \<le> of_char c \<and> of_char c \<le> (0x8A::nat)
              \<or> c = CHR 0xA8 \<or> c = CHR 0xA9 \<or> c = CHR 0xAF)
      \<or> a = CHR 0xE2 \<and> b = CHR 0x81 \<and> c = CHR 0x9F
      \<or> a = CHR 0xE3 \<and> b = CHR 0x80 \<and> c = CHR 0x80
      \<or> a = CHR 0xEF \<and> b = CHR 0xBB \<and> c = CHR 0xBF)"

fun blank :: "string \<Rightarrow> bool" where
  "blank [] = True"
| "blank [a] = space1 a"
| "blank [a, b] = (if space1 a then blank [b] else space2 a b)"
| "blank (a # b # c # r) =
     (if space1 a then blank (b # c # r)
      else if space2 a b then blank (c # r)
      else space3 a b c \<and> blank r)"

subsection \<open>Decoding the bytes of a read\<close>

text \<open>
  \<^verbatim>\<open>new TextDecoder().decode(value)\<close>, line 138: a fresh UTF-8 decoder for every
  read, not fatal, not streaming, and with the byte order mark not ignored. It copies
  every well-formed sequence, puts U+FFFD (\<open>replacement\<close>) for every ill-formed one,
  also for a sequence the end of the read cuts, and drops U+FEFF
  (\<open>byteOrderMark\<close>) when it is the first character of the result.

  \<open>needed\<close> is the number of continuation bytes a lead byte asks for, \<open>lower\<close> and
  \<open>upper\<close> bound the first of them, and the later ones lie between 0x80 and 0xBF.
  \<open>continuation\<close> reads them: the bytes read and the rest when all are there, and
  otherwise the rest from the first byte that does not fit, which is decoded again.
\<close>

definition replacement :: string where
  "replacement = [CHR 0xEF, CHR 0xBF, CHR 0xBD]"

definition byteOrderMark :: string where
  "byteOrderMark = [CHR 0xEF, CHR 0xBB, CHR 0xBF]"

definition between :: "nat \<Rightarrow> char \<Rightarrow> nat \<Rightarrow> bool" where
  "between lo c hi = (lo \<le> of_char c \<and> of_char c \<le> hi)"

definition needed :: "char \<Rightarrow> nat" where
  "needed b =
     (if between 0xC2 b 0xDF then 1
      else if between 0xE0 b 0xEF then 2
      else if between 0xF0 b 0xF4 then 3
      else 0)"

definition lower :: "char \<Rightarrow> nat" where
  "lower b = (if b = CHR 0xE0 then 0xA0 else if b = CHR 0xF0 then 0x90 else 0x80)"

definition upper :: "char \<Rightarrow> nat" where
  "upper b = (if b = CHR 0xED then 0x9F else if b = CHR 0xF4 then 0x8F else 0xBF)"

fun continuation :: "nat \<Rightarrow> nat \<Rightarrow> nat \<Rightarrow> string \<Rightarrow> string option \<times> string" where
  "continuation 0 lo hi bs = (Some [], bs)"
| "continuation (Suc k) lo hi [] = (None, [])"
| "continuation (Suc k) lo hi (c # r) =
     (if between lo c hi then
        (case continuation k 0x80 0xBF r of
           (Some t, r') \<Rightarrow> (Some (c # t), r')
         | (None, r') \<Rightarrow> (None, r'))
      else (None, c # r))"

text \<open>The first character of a list of bytes, as UTF-8 again, and the bytes left.\<close>

fun first :: "string \<Rightarrow> string \<times> string" where
  "first [] = ([], [])"
| "first (b # bs) =
     (if between 0x00 b 0x7F then ([b], bs)
      else if needed b = 0 then (replacement, bs)
      else (case continuation (needed b) (lower b) (upper b) bs of
              (Some t, r) \<Rightarrow> (b # t, r)
            | (None, r) \<Rightarrow> (replacement, r)))"

function utf8 :: "string \<Rightarrow> string" where
  "utf8 [] = []"
| "utf8 (b # bs) = fst (first (b # bs)) @ utf8 (snd (first (b # bs)))"
  by pat_completeness auto
termination
proof (relation "measure length")
  show "wf (measure length)" by simp
next
  fix b bs
  have "length (snd (continuation k lo hi r)) \<le> length r" for k lo hi r
    by (induction k lo hi r rule: continuation.induct)
       (auto split: prod.splits option.splits)
  from this [of "needed b" "lower b" "upper b" bs]
  have "length (snd (first (b # bs))) \<le> length bs"
    by (auto split: prod.splits option.splits)
  then show "(snd (first (b # bs)), b # bs) \<in> measure length"
    by (simp add: less_Suc_eq_le del: first.simps)
qed

declare utf8.simps(2) [simp del]

definition decodeChunk :: "string \<Rightarrow> string" where
  "decodeChunk bytes =
     (if startsWith (utf8 bytes) byteOrderMark then drop 3 (utf8 bytes) else utf8 bytes)"

subsection \<open>Messages and the state of the page\<close>

datatype role = User | Assistant

text \<open>
  \<^verbatim>\<open>interface Message\<close>. \<open>timestamp\<close> is the instant that
  \<^verbatim>\<open>new Date().toISOString()\<close> renders; an absent \<^verbatim>\<open>is_generated_ui\<close> is
  \<open>JUndefined\<close>.
\<close>

record message =
  id_msg :: string
  role :: role
  content :: js
  timestamp :: nat
  is_generated_ui :: js

text \<open>
  The \<^verbatim>\<open>useState\<close> cells that \<^verbatim>\<open>sendMessage\<close> reads or writes. The two iframe
  refreshes it schedules with \<^verbatim>\<open>setTimeout\<close> act on the rendering surfaces only and
  are not part of this state.
\<close>

record home =
  messages :: "message list"
  input :: string
  loading :: bool
  conversationId :: js
  generatedHtml :: js
  showPreview :: bool
  streamingText :: js
  isStreaming :: bool

definition initial :: home where
  "initial = \<lparr> messages = [], input = [], loading = False, conversationId = JStr [],
     generatedHtml = JStr [], showPreview = False, streamingText = JStr [],
     isStreaming = False \<rparr>"

subsection \<open>Decoding one line\<close>

text \<open>
  What one line of a chunk triggers. The arguments are the fields in the order the
  branch reads them: \<open>TextChunk accumulated_text conversation_id\<close>,
  \<open>HtmlChunk html_content\<close> (for both \<^verbatim>\<open>html_chunk\<close> and \<^verbatim>\<open>html_complete\<close>,
  which share one branch), \<open>Complete conversation_id html_content final_text is_ui\<close>.
\<close>

datatype event =
    TextChunk js js
  | HtmlChunk js
  | Complete js js js js

text \<open>
  Lines 142 to 146, 159, 178 and 206: a line without the marker is passed over; the rest
  after the six characters of the marker goes to \<^verbatim>\<open>JSON.parse\<close> (the parameter
  \<open>parse\<close>, \<open>None\<close> when it throws); a throw, also the one of \<^verbatim>\<open>data.type\<close> on
  \<^verbatim>\<open>null\<close>, is caught and the line is dropped; a payload of another type matches no
  branch.
\<close>

definition decode :: "(string \<Rightarrow> js option) \<Rightarrow> string \<Rightarrow> event option" where
  "decode parse line =
     (if startsWith line ''data: '' then
        (case parse (drop 6 line) of
           None \<Rightarrow> None
         | Some d \<Rightarrow>
             if d = JNull \<or> d = JUndefined then None
             else if get d ''type'' = JStr ''text_chunk'' then
               Some (TextChunk (get d ''accumulated_text'') (get d ''conversation_id''))
             else if get d ''type'' = JStr ''html_chunk''
                     \<or> get d ''type'' = JStr ''html_complete'' then
               Some (HtmlChunk (get d ''html_content''))
             else if get d ''type'' = JStr ''complete'' then
               Some (Complete (get d ''conversation_id'') (get d ''html_content'')
                       (get d ''final_text'') (get d ''is_ui''))
             else None)
      else None)"

subsection \<open>Applying one event\<close>

text \<open>
  \<^verbatim>\<open>prev.map(msg => msg.id === streamingMessageId ? {...msg, ...} : msg)\<close>: every
  message whose id equals the placeholder's is rebuilt, the others are kept.
\<close>

definition mapById :: "string \<Rightarrow> (message \<Rightarrow> message) \<Rightarrow> message list \<Rightarrow> message list" where
  "mapById sid f ms = map (\<lambda>msg. if id_msg msg = sid then f msg else msg) ms"

text \<open>
  The three branches (lines 147 to 156, 160 to 175, 180 to 202). The locals
  \<^verbatim>\<open>accumulatedText\<close> and \<^verbatim>\<open>currentHtml\<close> are read only right after they are
  assigned and \<^verbatim>\<open>finalConversationId\<close> is never read, so they carry nothing from
  one event to the next.
\<close>

fun applyEvent :: "string \<Rightarrow> event \<Rightarrow> home \<Rightarrow> home" where
  "applyEvent sid (TextChunk accumulated_text conversation_id) s =
     s\<lparr> streamingText := accumulated_text,
        messages := mapById sid (\<lambda>msg. msg\<lparr> content := accumulated_text \<rparr>) (messages s) \<rparr>"
| "applyEvent sid (HtmlChunk html_content) s =
     s\<lparr> generatedHtml := html_content,
        showPreview := True,
        messages := mapById sid (\<lambda>msg. msg\<lparr> is_generated_ui := JBool True \<rparr>) (messages s) \<rparr>"
| "applyEvent sid (Complete conversation_id html_content final_text is_ui) s =
     (let s1 = s\<lparr> conversationId := conversation_id, streamingText := JStr [] \<rparr>;
          s2 = (if truthy html_content
                then s1\<lparr> generatedHtml := html_content, showPreview := True \<rparr>
                else s1)
      in s2\<lparr> messages :=
              mapById sid (\<lambda>msg. msg\<lparr> content := final_text, is_generated_ui := is_ui \<rparr>)
                (messages s2) \<rparr>)"

fun isComplete :: "event \<Rightarrow> bool" where
  "isComplete (Complete c h f u) = True"
| "isComplete e = False"

subsection \<open>The two loops\<close>

text \<open>
  \<^verbatim>\<open>for (const line of lines)\<close>, lines 141 to 210. The \<^verbatim>\<open>break\<close> of the
  \<^verbatim>\<open>complete\<close> branch leaves this loop, and only this one.
\<close>

fun forLines :: "(string \<Rightarrow> js option) \<Rightarrow> string \<Rightarrow> string list \<Rightarrow> home \<Rightarrow> home" where
  "forLines parse sid [] s = s"
| "forLines parse sid (line # lines) s =
     (case decode parse line of
        None \<Rightarrow> forLines parse sid lines s
      | Some e \<Rightarrow>
          if isComplete e then applyEvent sid e s
          else forLines parse sid lines (applyEvent sid e s))"

text \<open>
  \<^verbatim>\<open>while (true)\<close>, lines 134 to 211, over the chunks the reader delivers before it
  reports the end or fails. A chunk is the bytes of one read; it is decoded and cut into
  lines on its own. Nothing is kept from one chunk to the next but the state.
\<close>

fun whileRead :: "(string \<Rightarrow> js option) \<Rightarrow> string \<Rightarrow> string list \<Rightarrow> home \<Rightarrow> home" where
  "whileRead parse sid [] s = s"
| "whileRead parse sid (chunk # chunks) s =
     whileRead parse sid chunks (forLines parse sid (split_on LF (decodeChunk chunk)) s)"

subsection \<open>One call of sendMessage\<close>

text \<open>
  How the reads of a body end: the reader reports \<^verbatim>\<open>done\<close>, or a read is rejected.
  The response: \<^verbatim>\<open>fetch\<close> is rejected, or it resolves with \<^verbatim>\<open>ok\<close> and a body
  (\<open>None\<close> for a null body), given by the chunks it delivers and how it ends.
\<close>

datatype ending = Done | ReadFails

datatype response =
    FetchRejects
  | Response bool "(string list \<times> ending) option"

text \<open>
  The body of the request, lines 104 to 108. \<^verbatim>\<open>conversationId || undefined\<close> and
  \<^verbatim>\<open>messages\<close> are those of the state the call starts from.
\<close>

record request =
  message :: string
  conversation_id :: js
  history :: "message list"

definition requestBody :: "home \<Rightarrow> request" where
  "requestBody s = \<lparr> message = input s,
     conversation_id = (if truthy (conversationId s) then conversationId s else JUndefined),
     history = messages s \<rparr>"

text \<open>
  What one call takes from outside: the clock readings for the ids
  (\<^verbatim>\<open>Date.now()\<close>) and the timestamps (\<^verbatim>\<open>new Date()\<close>) of the user message, the
  placeholder and the error notice, and \<^verbatim>\<open>fetch\<close>, which answers the request body it
  is called with.
\<close>

record env =
  nowUser :: nat
  dateUser :: nat
  fetch :: "request \<Rightarrow> response"
  nowStream :: nat
  dateStream :: nat
  nowError :: nat
  dateError :: nat

definition errorNotice :: string where
  "errorNotice =
     ''Sorry, I encountered an error. Please make sure the backend server is running on port 8000.''"

definition userMessage :: "env \<Rightarrow> home \<Rightarrow> message" where
  "userMessage e s = \<lparr> id_msg = toString (nowUser e), role = User, content = JStr (input s),
     timestamp = dateUser e, is_generated_ui = JUndefined \<rparr>"

definition streamingMessage :: "env \<Rightarrow> message" where
  "streamingMessage e = \<lparr> id_msg = toString (nowStream e), role = Assistant,
     content = JStr [], timestamp = dateStream e, is_generated_ui = JBool False \<rparr>"

definition errorMessage :: "env \<Rightarrow> message" where
  "errorMessage e = \<lparr> id_msg = toString (nowError e), role = Assistant,
     content = JStr errorNotice, timestamp = dateError e, is_generated_ui = JUndefined \<rparr>"

text \<open>
  The \<^verbatim>\<open>try\<close> block, lines 95 to 211, from the state the guard and the first
  setters leave: it gives the state reached and whether it was left by an exception.
  \<^verbatim>\<open>fetch\<close> may be rejected, a response that is not \<^verbatim>\<open>ok\<close> and a null body
  each throw before the placeholder is appended; a rejected read throws after the chunks
  delivered before it have been processed.
\<close>

datatype outcome = Returned | Threw

definition tryBlock ::
  "(string \<Rightarrow> js option) \<Rightarrow> env \<Rightarrow> request \<Rightarrow> home \<Rightarrow> home \<times> outcome" where
  "tryBlock parse e req s1 =
     (case fetch e req of
        FetchRejects \<Rightarrow> (s1, Threw)
      | Response ok body \<Rightarrow>
          if ok then
            (case body of
               None \<Rightarrow> (s1, Threw)
             | Some (chunks, ending) \<Rightarrow>
                 (whileRead parse (toString (nowStream e)) chunks
                    (s1\<lparr> messages := messages s1 @ [streamingMessage e] \<rparr>),
                  case ending of Done \<Rightarrow> Returned | ReadFails \<Rightarrow> Threw))
          else (s1, Threw))"

text \<open>The \<^verbatim>\<open>catch\<close> block, lines 213 to 221.\<close>

definition catchBlock :: "env \<Rightarrow> home \<Rightarrow> home" where
  "catchBlock e s = s\<lparr> messages := messages s @ [errorMessage e] \<rparr>"

text \<open>The \<^verbatim>\<open>finally\<close> block, lines 222 to 226.\<close>

definition finallyBlock :: "home \<Rightarrow> home" where
  "finallyBlock s = s\<lparr> loading := False, isStreaming := False, streamingText := JStr [] \<rparr>"

text \<open>The guard of line 79, and the setters of lines 88 to 93 that follow it.\<close>

definition rejected :: "home \<Rightarrow> bool" where
  "rejected s = (blank (input s) \<or> loading s \<or> isStreaming s)"

definition begin_send :: "env \<Rightarrow> home \<Rightarrow> home" where
  "begin_send e s = s\<lparr> messages := messages s @ [userMessage e s], input := [],
     loading := True, isStreaming := True, streamingText := JStr [] \<rparr>"

text \<open>\<^verbatim>\<open>sendMessage\<close>, lines 78 to 227.\<close>

definition sendMessage :: "(string \<Rightarrow> js option) \<Rightarrow> env \<Rightarrow> home \<Rightarrow> home" where
  "sendMessage parse e s =
     (if rejected s then s
      else
        (case tryBlock parse e (requestBody s) (begin_send e s) of
           (s', Returned) \<Rightarrow> finallyBlock s'
         | (s', Threw) \<Rightarrow> finallyBlock (catchBlock e s')))"

subsection \<open>The events an exchange applies\<close>

text \<open>
  The events the inner loop applies for the lines of one chunk, in order: those the
  lines decode to, up to and with the first \<open>Complete\<close>. The events of an exchange are
  those of its chunks, one chunk after the other.
\<close>

fun appliedLines :: "(string \<Rightarrow> js option) \<Rightarrow> string list \<Rightarrow> event list" where
  "appliedLines parse [] = []"
| "appliedLines parse (line # lines) =
     (case decode parse line of
        None \<Rightarrow> appliedLines parse lines
      | Some e \<Rightarrow> if isComplete e then [e] else e # appliedLines parse lines)"

definition appliedChunks :: "(string \<Rightarrow> js option) \<Rightarrow> string list \<Rightarrow> event list" where
  "appliedChunks parse chunks =
     concat (map (\<lambda>c. appliedLines parse (split_on LF (decodeChunk c))) chunks)"

fun applied :: "(string \<Rightarrow> js option) \<Rightarrow> response \<Rightarrow> event list" where
  "applied parse (Response True (Some (chunks, ending))) = appliedChunks parse chunks"
| "applied parse r = []"

definition applyEvents :: "string \<Rightarrow> event list \<Rightarrow> home \<Rightarrow> home" where
  "applyEvents sid es s = fold (applyEvent sid) es s"

text \<open>What one event does to a message that carries the placeholder's id.\<close>

fun rebuild :: "event \<Rightarrow> message \<Rightarrow> message" where
  "rebuild (TextChunk acc cid) msg = msg\<lparr> content := acc \<rparr>"
| "rebuild (HtmlChunk html) msg = msg\<lparr> is_generated_ui := JBool True \<rparr>"
| "rebuild (Complete cid html final ui) msg =
     msg\<lparr> content := final, is_generated_ui := ui \<rparr>"

subsection \<open>Notions the properties are stated with\<close>

text \<open>
  The events a response text holds: what its lines decode to, all of them, cut at the
  line feeds of the whole text.
\<close>

definition eventsOf :: "(string \<Rightarrow> js option) \<Rightarrow> string \<Rightarrow> event list" where
  "eventsOf parse text = List.map_filter (decode parse) (split_on LF text)"

text \<open>
  A delivery is line-aligned when every chunk but the last is empty or ends with a
  line feed, so that no line is cut by a chunk boundary. It is free of byte order marks
  when no chunk decodes to a text that begins with one.
\<close>

definition noBOM :: "string list \<Rightarrow> bool" where
  "noBOM cs = list_all (\<lambda>c. \<not> startsWith (utf8 c) byteOrderMark) cs"

fun aligned :: "string list \<Rightarrow> bool" where
  "aligned [] = True"
| "aligned [c] = True"
| "aligned (c # c' # cs) = ((c = [] \<or> last c = LF) \<and> aligned (c' # cs))"

text \<open>No event follows the first \<open>Complete\<close>.\<close>

fun completeLast :: "event list \<Rightarrow> bool" where
  "completeLast [] = True"
| "completeLast (e # es) = (if isComplete e then es = [] else completeLast es)"

text \<open>The events up to and with the first \<open>Complete\<close>.\<close>

fun upto :: "event list \<Rightarrow> event list" where
  "upto [] = []"
| "upto (e # es) = (if isComplete e then [e] else e # upto es)"

text \<open>
  The \<open>accumulated_text\<close> of the last \<open>TextChunk\<close> of a list of events, \<open>a\<close> if it
  has none; the \<open>conversation_id\<close> of the last \<open>Complete\<close>, \<open>c\<close> if it has none.
\<close>

fun accText :: "js \<Rightarrow> event list \<Rightarrow> js" where
  "accText a [] = a"
| "accText a (TextChunk acc cid # es) = accText acc es"
| "accText a (e # es) = accText a es"

fun lastCid :: "js \<Rightarrow> event list \<Rightarrow> js" where
  "lastCid c [] = c"
| "lastCid c (Complete cid html final ui # es) = lastCid cid es"
| "lastCid c (e # es) = lastCid c es"



subsection \<open>A decoder to run the examples with\<close>

text \<open>
  \<^verbatim>\<open>JSON.parse\<close> is the platform's, and every general statement below holds for any
  function in its place. The examples are run with \<open>json_fragment\<close>, which reads the
  JSON texts built from objects, arrays, strings with the two-character escapes, and
  \<^verbatim>\<open>true\<close>, \<^verbatim>\<open>false\<close> and \<^verbatim>\<open>null\<close>. It gives \<open>None\<close> on numbers and on
  \<^verbatim>\<open>\u\<close> escapes, which the examples do not use, and on every text that is not JSON.
\<close>

definition json_ws :: "char \<Rightarrow> bool" where
  "json_ws c = (c = CHR '' '' \<or> c = CHR 0x09 \<or> c = CHR 0x0A \<or> c = CHR 0x0D)"

definition unescape :: "char \<Rightarrow> char option" where
  "unescape c =
     (if c = CHR 0x22 \<or> c = CHR 0x5C \<or> c = CHR ''/'' then Some c
      else if c = CHR ''b'' then Some (CHR 0x08)
      else if c = CHR ''f'' then Some (CHR 0x0C)
      else if c = CHR ''n'' then Some (CHR 0x0A)
      else if c = CHR ''r'' then Some (CHR 0x0D)
      else if c = CHR ''t'' then Some (CHR 0x09)
      else None)"

text \<open>A string, read from behind its opening quote: its characters and the rest.\<close>

fun frag_string :: "string \<Rightarrow> (string \<times> string) option" where
  "frag_string [] = None"
| "frag_string (c # cs) =
     (if c = CHR 0x22 then Some ([], cs)
      else if c = CHR 0x5C then
        (case cs of
           [] \<Rightarrow> None
         | x # r \<Rightarrow>
             (case unescape x of
                None \<Rightarrow> None
              | Some y \<Rightarrow>
                  (case frag_string r of
                     None \<Rightarrow> None
                   | Some (t, r') \<Rightarrow> Some (y # t, r'))))
      else if (of_char c :: nat) < 32 then None
      else (case frag_string cs of None \<Rightarrow> None | Some (t, r') \<Rightarrow> Some (c # t, r')))"

text \<open>
  A value, the members of an object and the elements of an array, each with the rest
  of the text. The first argument bounds the nesting and the number of members.
\<close>

fun frag_value :: "nat \<Rightarrow> string \<Rightarrow> (js \<times> string) option"
  and frag_members :: "nat \<Rightarrow> string \<Rightarrow> ((string \<times> js) list \<times> string) option"
  and frag_elements :: "nat \<Rightarrow> string \<Rightarrow> (js list \<times> string) option"
where
  "frag_value 0 cs = None"
| "frag_value (Suc n) cs =
     (case dropWhile json_ws cs of
        [] \<Rightarrow> None
      | c # r \<Rightarrow>
          if c = CHR 0x22 then
            (case frag_string r of None \<Rightarrow> None | Some (t, r') \<Rightarrow> Some (JStr t, r'))
          else if c = CHR ''{'' then
            (if take 1 (dropWhile json_ws r) = ''}''
             then Some (JObj [], drop 1 (dropWhile json_ws r))
             else (case frag_members n r of
                     None \<Rightarrow> None
                   | Some (kvs, r') \<Rightarrow> Some (JObj kvs, r')))
          else if c = CHR ''['' then
            (if take 1 (dropWhile json_ws r) = '']''
             then Some (JArr [], drop 1 (dropWhile json_ws r))
             else (case frag_elements n r of
                     None \<Rightarrow> None
                   | Some (vs, r') \<Rightarrow> Some (JArr vs, r')))
          else if take 4 (c # r) = ''true'' then Some (JBool True, drop 3 r)
          else if take 5 (c # r) = ''false'' then Some (JBool False, drop 4 r)
          else if take 4 (c # r) = ''null'' then Some (JNull, drop 3 r)
          else None)"
| "frag_members 0 cs = None"
| "frag_members (Suc n) cs =
     (case dropWhile json_ws cs of
        [] \<Rightarrow> None
      | c # r \<Rightarrow>
          if c = CHR 0x22 then
            (case frag_string r of
               None \<Rightarrow> None
             | Some (k, r1) \<Rightarrow>
                 if take 1 (dropWhile json_ws r1) = '':'' then
                   (case frag_value n (drop 1 (dropWhile json_ws r1)) of
                      None \<Rightarrow> None
                    | Some (v, r2) \<Rightarrow>
                        if take 1 (dropWhile json_ws r2) = '','' then
                          (case frag_members n (drop 1 (dropWhile json_ws r2)) of
                             None \<Rightarrow> None
                           | Some (kvs, r3) \<Rightarrow> Some ((k, v) # kvs, r3))
                        else if take 1 (dropWhile json_ws r2) = ''}'' then
                          Some ([(k, v)], drop 1 (dropWhile json_ws r2))
                        else None)
                 else None)
          else None)"
| "frag_elements 0 cs = None"
| "frag_elements (Suc n) cs =
     (case frag_value n cs of
        None \<Rightarrow> None
      | Some (v, r) \<Rightarrow>
          if take 1 (dropWhile json_ws r) = '','' then
            (case frag_elements n (drop 1 (dropWhile json_ws r)) of
               None \<Rightarrow> None
             | Some (vs, r') \<Rightarrow> Some (v # vs, r'))
          else if take 1 (dropWhile json_ws r) = '']'' then
            Some ([v], drop 1 (dropWhile json_ws r))
          else None)"

definition json_fragment :: "string \<Rightarrow> js option" where
  "json_fragment t =
     (case frag_value (Suc (length t)) t of
        None \<Rightarrow> None
      | Some (v, r) \<Rightarrow> if dropWhile json_ws r = [] then Some v else None)"

subsection \<open>Example data\<close>

text \<open>
  The records of the response of the login-form example, a clock, and the state of a
  fresh page with a text typed in.
\<close>

definition rec_text :: string where
  \<open>rec_text = ''data: {"type":"text_chunk","accumulated_text":"Sure, here is a form","conversation_id":"c1"}''\<close>

definition rec_html :: string where
  \<open>rec_html = ''data: {"type":"html_chunk","html_content":"<form></form>"}''\<close>

definition rec_complete :: string where
  \<open>rec_complete = ''data: {"type":"complete","conversation_id":"c1","final_text":"Sure, here is a form","is_ui":true,"html_content":"<form></form>"}''\<close>

definition rec_late :: string where
  \<open>rec_late = ''data: {"type":"text_chunk","accumulated_text":"late","conversation_id":"c1"}''\<close>

definition rec_other :: string where
  \<open>rec_other = ''data: {"type":"complete","conversation_id":"c2","final_text":"ok","is_ui":false}''\<close>

definition rec_bad :: string where
  \<open>rec_bad = ''data: {"type":"text_chunk","accumulated_text":''\<close>

text \<open>
  The login-form response as one text, delivered record by record, and delivered in
  four chunks whose boundaries fall inside the three records.
\<close>

definition wholeText :: string where
  "wholeText = rec_text @ [LF, LF] @ rec_html @ [LF, LF] @ rec_complete @ [LF, LF]"

definition byRecord :: "string list" where
  "byRecord = [rec_text @ [LF, LF], rec_html @ [LF, LF], rec_complete @ [LF, LF]]"

definition cutRecords :: "string list" where
  \<open>cutRecords =
     [''data: {"type":"text_chunk","accumulated_text":"Sure, he'',
      ''re is a form","conversation_id":"c1"}'' @ [LF, LF]
        @ ''data: {"type":"html_chunk","html_con'',
      ''tent":"<form></form>"}'' @ [LF, LF]
        @ ''data: {"type":"complete","conversation_id":"c1","final_te'',
      ''xt":"Sure, here is a form","is_ui":true,"html_content":"<form></form>"}''
        @ [LF, LF]]\<close>

text \<open>
  The same response with the first record whole and the two others cut; and one chunk
  with a record that does not parse between two that do, and the chunk without it.
\<close>

definition cutTwice :: "string list" where
  \<open>cutTwice =
     [rec_text @ [LF, LF] @ ''data: {"type":"html_chunk","html_con'',
      ''tent":"<form></form>"}'' @ [LF, LF]
        @ ''data: {"type":"complete","conversation_id":"c1","final_te'',
      ''xt":"Sure, here is a form","is_ui":true,"html_content":"<form></form>"}''
        @ [LF, LF]]\<close>

definition chunkWithBad :: string where
  "chunkWithBad = rec_late @ [LF] @ rec_bad @ [LF] @ rec_other @ [LF, LF]"

definition chunkWithout :: string where
  "chunkWithout = rec_late @ [LF] @ rec_other @ [LF, LF]"

definition env0 :: "response \<Rightarrow> env" where
  "env0 r = \<lparr> nowUser = 1000, dateUser = 1001, fetch = (\<lambda>req. r), nowStream = 1250,
     dateStream = 1251, nowError = 1300, dateError = 1301 \<rparr>"

definition typed :: "string \<Rightarrow> home" where
  "typed text = initial\<lparr> input := text \<rparr>"

section \<open>Lemmas\<close>

subsection \<open>Cutting a text into lines\<close>

lemma split_on_not_Nil [simp]: "split_on sep s \<noteq> []"
  by (induction s) (auto split: list.splits)

lemma split_on_append: "split_on sep (a @ sep # b) = split_on sep a @ split_on sep b"
  by (induction a) (auto split: list.splits)

lemma split_on_no_sep: "sep \<notin> set a \<Longrightarrow> split_on sep a = [a]"
  by (induction a) auto

lemma split_on_snoc_sep: "split_on sep (a @ [sep]) = split_on sep a @ [[]]"
  using split_on_append [of sep a "[]"] by simp

lemma split_on_sep_Cons: "split_on sep (sep # b) = [] # split_on sep b"
  by simp

subsection \<open>The loops as folds over the applied events\<close>

lemma forLines_applied:
  "forLines parse sid lines s = applyEvents sid (appliedLines parse lines) s"
  by (induction lines arbitrary: s) (auto simp: applyEvents_def split: option.splits)

lemma whileRead_applied:
  "whileRead parse sid chunks s = applyEvents sid (appliedChunks parse chunks) s"
  by (induction chunks arbitrary: s)
     (auto simp: applyEvents_def appliedChunks_def forLines_applied)

lemma decode_Nil [simp]: "decode parse [] = None"
  by (simp add: decode_def startsWith_def)

lemma appliedLines_upto: "appliedLines parse lines = upto (List.map_filter (decode parse) lines)"
  by (induction lines) (auto split: option.splits)

lemma appliedChunks_Cons:
  "appliedChunks parse (c # cs)
     = upto (eventsOf parse (decodeChunk c)) @ appliedChunks parse cs"
  by (simp add: appliedChunks_def appliedLines_upto eventsOf_def)

lemma appliedLines_skip:
  "decode parse bad = None \<Longrightarrow>
   appliedLines parse (before @ bad # after) = appliedLines parse (before @ after)"
  by (induction before) (auto split: option.splits)

lemma appliedChunks_append:
  "appliedChunks parse (cs @ cs') = appliedChunks parse cs @ appliedChunks parse cs'"
  by (simp add: appliedChunks_def)

subsection \<open>What the events do to each part of the state\<close>

lemma messages_applyEvent:
  "messages (applyEvent sid ev s) = mapById sid (rebuild ev) (messages s)"
  by (cases ev) (simp_all add: Let_def mapById_def)

lemma id_msg_rebuild [simp]: "id_msg (rebuild ev m) = id_msg m"
  by (cases ev) simp_all

lemma role_rebuild [simp]: "role (rebuild ev m) = role m"
  by (cases ev) simp_all

lemma timestamp_rebuild [simp]: "timestamp (rebuild ev m) = timestamp m"
  by (cases ev) simp_all

lemma id_msg_fold_rebuild [simp]: "id_msg (fold rebuild es m) = id_msg m"
  by (induction es arbitrary: m) simp_all

lemma role_fold_rebuild [simp]: "role (fold rebuild es m) = role m"
  by (induction es arbitrary: m) simp_all

lemma timestamp_fold_rebuild [simp]: "timestamp (fold rebuild es m) = timestamp m"
  by (induction es arbitrary: m) simp_all

lemma content_fold_rebuild:
  "list_all (\<lambda>ev. \<not> isComplete ev) es \<Longrightarrow> content (fold rebuild es m) = accText (content m) es"
proof (induction es arbitrary: m)
  case Nil
  show ?case by simp
next
  case (Cons ev es)
  then show ?case by (cases ev) simp_all
qed

lemma mapById_fuse:
  "(\<And>m. id_msg (g m) = id_msg m) \<Longrightarrow> mapById sid f (mapById sid g ms) = mapById sid (f \<circ> g) ms"
  by (simp add: mapById_def)

lemma messages_applyEvents:
  "messages (applyEvents sid es s) = mapById sid (fold rebuild es) (messages s)"
proof (induction es arbitrary: s)
  case Nil
  show ?case by (simp add: applyEvents_def mapById_def)
next
  case (Cons ev es)
  have "messages (applyEvents sid (ev # es) s) = messages (applyEvents sid es (applyEvent sid ev s))"
    by (simp add: applyEvents_def)
  also have "\<dots> = mapById sid (fold rebuild es) (mapById sid (rebuild ev) (messages s))"
    by (simp add: Cons.IH messages_applyEvent)
  also have "\<dots> = mapById sid (fold rebuild (ev # es)) (messages s)"
    by (simp add: mapById_fuse)
  finally show ?case .
qed

lemma conversationId_applyEvents:
  "conversationId (applyEvents sid es s) = lastCid (conversationId s) es"
proof (induction es arbitrary: s)
  case Nil
  show ?case by (simp add: applyEvents_def)
next
  case (Cons ev es)
  then show ?case by (cases ev) (simp_all add: applyEvents_def Let_def)
qed


lemma loading_applyEvents [simp]: "loading (applyEvents sid es s) = loading s"
proof (induction es arbitrary: s)
  case Nil
  show ?case by (simp add: applyEvents_def)
next
  case (Cons ev es)
  then show ?case by (cases ev) (simp_all add: applyEvents_def Let_def)
qed

lemma isStreaming_applyEvents [simp]: "isStreaming (applyEvents sid es s) = isStreaming s"
proof (induction es arbitrary: s)
  case Nil
  show ?case by (simp add: applyEvents_def)
next
  case (Cons ev es)
  then show ?case by (cases ev) (simp_all add: applyEvents_def Let_def)
qed

subsection \<open>The decimal digits of a number\<close>

lemma digit_code: "d < 10 \<Longrightarrow> of_char (''0123456789'' ! d) = 48 + d"
proof -
  assume "d < 10"
  then have "d \<in> {0, 1, 2, 3, 4, 5, 6, 7, 8, 9}" by auto
  then show ?thesis by auto
qed

lemma digitsValue_toString: "digitsValue (toString n) = n"
proof (induction n rule: toString.induct)
  case (1 n)
  show ?case
  proof (cases "n < 10")
    case True
    then show ?thesis
      by (simp add: toString.simps [of n] digitsValue_def digit_code)
  next
    case False
    with 1 have "digitsValue (toString (n div 10)) = n div 10" by simp
    with False show ?thesis
      by (simp add: toString.simps [of n] digitsValue_def digit_code)
  qed
qed

lemma toString_eq_iff: "toString m = toString n \<longleftrightarrow> m = n"
  by (metis digitsValue_toString)

subsection \<open>The decoder at an ASCII byte\<close>

lemma lower_ge: "0x80 \<le> lower b"
  by (simp add: lower_def)

lemma continuation_ascii:
  "between 0x00 x 0x7F \<Longrightarrow> 0x80 \<le> lo \<Longrightarrow>
   continuation k lo hi (cs @ x # b)
     = (fst (continuation k lo hi cs), snd (continuation k lo hi cs) @ x # b)"
proof (induction k lo hi cs rule: continuation.induct)
  case (1 lo hi bs)
  show ?case by simp
next
  case (2 k lo hi)
  then show ?case by (simp add: between_def)
next
  case (3 k lo hi c r)
  then show ?case by (auto split: prod.splits option.splits)
qed

lemma first_ascii_append:
  "between 0x00 x 0x7F \<Longrightarrow>
   first ((c # cs) @ x # b) = (fst (first (c # cs)), snd (first (c # cs)) @ x # b)"
  using continuation_ascii [of x "lower c" "needed c" "upper c" cs b]
  by (auto simp: lower_ge split: prod.splits option.splits)

lemma utf8_ascii: "between 0x00 x 0x7F \<Longrightarrow> utf8 (a @ x # b) = utf8 a @ x # utf8 b"
proof (induction a rule: utf8.induct)
  case 1
  then show ?case by (simp add: utf8.simps(2))
next
  case (2 c cs)
  have "utf8 ((c # cs) @ x # b)
      = fst (first (c # cs)) @ utf8 (snd (first (c # cs)) @ x # b)"
    using first_ascii_append [OF "2.prems", of c cs b]
    by (simp add: utf8.simps(2) [of c "cs @ x # b"] del: first.simps)
  also have "\<dots> = fst (first (c # cs)) @ utf8 (snd (first (c # cs))) @ x # utf8 b"
    using "2.IH" [OF "2.prems"] by simp
  also have "\<dots> = utf8 (c # cs) @ x # utf8 b"
    by (simp add: utf8.simps(2) [of c cs] del: first.simps)
  finally show ?case .
qed

lemma utf8_LF: "utf8 (a @ LF # b) = utf8 a @ LF # utf8 b"
  by (rule utf8_ascii) (simp add: between_def)

lemma utf8_aligned:
  assumes "c = [] \<or> last c = LF"
  shows "utf8 (c @ t) = utf8 c @ utf8 t"
proof (cases "c = []")
  case True
  then show ?thesis by simp
next
  case False
  with assms obtain a where "c = a @ [LF]"
    by (metis append_butlast_last_id)
  then show ?thesis
    using utf8_LF [of a t] utf8_LF [of a "[]"] by simp
qed

lemma utf8_aligned_last:
  assumes "c = [] \<or> last c = LF"
  shows "utf8 c = [] \<or> last (utf8 c) = LF"
proof (cases "c = []")
  case True
  then show ?thesis by simp
next
  case False
  with assms obtain a where "c = a @ [LF]"
    by (metis append_butlast_last_id)
  then show ?thesis
    using utf8_LF [of a "[]"] by simp
qed

lemma decodeChunk_noBOM:
  "\<not> startsWith (utf8 c) byteOrderMark \<Longrightarrow> decodeChunk c = utf8 c"
  by (simp add: decodeChunk_def)

subsection \<open>Line-aligned deliveries\<close>

lemma upto_completeLast: "completeLast es \<Longrightarrow> upto es = es"
  by (induction es) auto

lemma completeLast_append: "completeLast (xs @ ys) \<Longrightarrow> completeLast xs"
  by (induction xs) (auto split: if_splits)

lemma completeLast_append2: "completeLast (xs @ ys) \<Longrightarrow> completeLast ys"
  by (induction xs) (auto split: if_splits)

lemma map_filter_append:
  "List.map_filter f (xs @ ys) = List.map_filter f xs @ List.map_filter f ys"
  by (simp add: List.map_filter_def)

lemma eventsOf_aligned_Cons:
  assumes "c = [] \<or> last c = LF"
  shows "eventsOf parse (c @ t) = eventsOf parse c @ eventsOf parse t"
proof (cases "c = []")
  case True
  then show ?thesis by (simp add: eventsOf_def)
next
  case False
  with assms obtain a where c: "c = a @ [LF]"
    by (metis append_butlast_last_id)
  have "split_on LF (c @ t) = split_on LF a @ split_on LF t"
    using split_on_append [of LF a t] by (simp add: c)
  moreover have "split_on LF c = split_on LF a @ [[]]"
    by (simp add: c split_on_snoc_sep)
  ultimately show ?thesis
    by (simp add: eventsOf_def map_filter_append)
qed

lemma eventsOf_utf8_aligned:
  assumes "c = [] \<or> last c = LF"
  shows "eventsOf parse (utf8 (c @ t)) = eventsOf parse (utf8 c) @ eventsOf parse (utf8 t)"
  using utf8_aligned [OF assms, of t] utf8_aligned_last [OF assms]
    eventsOf_aligned_Cons [where c = "utf8 c" and parse = parse and t = "utf8 t"]
  by simp

lemma appliedChunks_aligned:
  "aligned cs \<Longrightarrow> noBOM cs \<Longrightarrow> completeLast (eventsOf parse (utf8 (concat cs))) \<Longrightarrow>
   appliedChunks parse cs = eventsOf parse (utf8 (concat cs))"
proof (induction cs rule: aligned.induct)
  case 1
  show ?case by (simp add: appliedChunks_def eventsOf_def)
next
  case (2 c)
  then have "decodeChunk c = utf8 c"
    by (simp add: noBOM_def decodeChunk_noBOM)
  with 2 show ?case
    by (simp add: appliedChunks_Cons upto_completeLast) (simp add: appliedChunks_def)
next
  case (3 c c' cs)
  from "3.prems"(1) have c: "c = [] \<or> last c = LF" and rest: "aligned (c' # cs)"
    by simp_all
  from "3.prems"(2) have d: "decodeChunk c = utf8 c" and nb: "noBOM (c' # cs)"
    by (simp_all add: noBOM_def decodeChunk_noBOM)
  have split: "eventsOf parse (utf8 (concat (c # c' # cs)))
      = eventsOf parse (utf8 c) @ eventsOf parse (utf8 (concat (c' # cs)))"
    using eventsOf_utf8_aligned [OF c] by simp
  with "3.prems"(3) have "completeLast (eventsOf parse (utf8 c))"
    and "completeLast (eventsOf parse (utf8 (concat (c' # cs))))"
    by (auto dest: completeLast_append completeLast_append2)
  with "3.IH" rest nb show ?case
    by (simp only: appliedChunks_Cons [of parse c] split upto_completeLast d)
qed

subsection \<open>A line that decodes to nothing\<close>

lemma decode_unparsed:
  "startsWith bad ''data: '' \<Longrightarrow> parse (drop 6 bad) = None \<Longrightarrow> decode parse bad = None"
  by (simp add: decode_def)

subsection \<open>The shape of a call\<close>

lemma tryBlock_streams:
  "fetch e req = Response True (Some (cs, en)) \<Longrightarrow>
   tryBlock parse e req s1 =
     (applyEvents (toString (nowStream e)) (appliedChunks parse cs)
        (s1\<lparr> messages := messages s1 @ [streamingMessage e] \<rparr>),
      case en of Done \<Rightarrow> Returned | ReadFails \<Rightarrow> Threw)"
  by (simp add: tryBlock_def whileRead_applied)

lemma sendMessage_same_events:
  assumes "appliedChunks parse cs = appliedChunks parse' cs'"
  shows "sendMessage parse (e\<lparr> fetch := \<lambda>req. Response ok (Some (cs, en)) \<rparr>) s
       = sendMessage parse' (e\<lparr> fetch := \<lambda>req. Response ok (Some (cs', en)) \<rparr>) s"
  using assms
  by (simp add: sendMessage_def tryBlock_def whileRead_applied begin_send_def
      userMessage_def streamingMessage_def catchBlock_def errorMessage_def)

section \<open>Properties\<close>

lemma not_rejected_typed: "\<not> rejected (typed ''Create a login form'')"
  by code_simp

subsection \<open>Chunk boundaries\<close>

text \<open>
  C1, as the code has it. Take the bytes of a response whose text holds no event after
  the first \<open>Complete\<close>, and two deliveries of these bytes in chunks that are
  line-aligned, so that every boundary falls right after a line feed, and free of byte
  order marks. One call of \<^verbatim>\<open>sendMessage\<close> ends in the same state over either
  delivery: the same transcript, the same artifact payload and the same conversation
  id. The decoder of the payloads, the clock, the state before and the way the body ends
  are arbitrary.
\<close>

theorem aligned_deliveries_agree:
  assumes "concat cs = concat cs'" and "aligned cs" and "aligned cs'"
    and "noBOM cs" and "noBOM cs'"
    and "completeLast (eventsOf parse (utf8 (concat cs)))"
  shows "sendMessage parse (e\<lparr> fetch := \<lambda>req. Response ok (Some (cs, en)) \<rparr>) s
       = sendMessage parse (e\<lparr> fetch := \<lambda>req. Response ok (Some (cs', en)) \<rparr>) s"
proof -
  have "appliedChunks parse cs = eventsOf parse (utf8 (concat cs))"
    using assms(2,4,6) by (rule appliedChunks_aligned)
  moreover have "appliedChunks parse cs' = eventsOf parse (utf8 (concat cs'))"
    using assms(3,5,6) by (simp add: appliedChunks_aligned assms(1))
  ultimately have "appliedChunks parse cs = appliedChunks parse cs'"
    by (simp add: assms(1))
  then show ?thesis by (rule sendMessage_same_events)
qed

theorem aligned_deliveries_agree_witness:
  "concat [wholeText] = concat byRecord \<and> aligned [wholeText] \<and> aligned byRecord
   \<and> noBOM [wholeText] \<and> noBOM byRecord
   \<and> completeLast (eventsOf json_fragment (utf8 (concat [wholeText])))
   \<and> sendMessage json_fragment (env0 (Response True (Some ([wholeText], Done))))
        (typed ''Create a login form'')
     = sendMessage json_fragment (env0 (Response True (Some (byRecord, Done))))
        (typed ''Create a login form'')"
proof -
  have h1: "concat [wholeText] = concat byRecord"
    by (simp add: wholeText_def byRecord_def)
  have h2: "aligned [wholeText]" by simp
  have h3: "aligned byRecord" by (simp add: byRecord_def)
  have h4: "noBOM [wholeText]" by code_simp
  have h5: "noBOM byRecord" by code_simp
  have h6: "completeLast (eventsOf json_fragment (utf8 (concat [wholeText])))" by code_simp
  from aligned_deliveries_agree [OF h1 h2 h3 h4 h5 h6, where e = "env0 FetchRejects"
      and ok = True and en = Done and s = "typed ''Create a login form''"]
  show ?thesis using h1 h2 h3 h4 h5 h6 by (simp add: env0_def)
qed

text \<open>
  C1 as the specification states it, for every way of cutting the bytes, does not hold:
  the page keeps nothing from one chunk to the next, so the head of a cut record fails
  to parse and its tail lacks the marker. The login-form response delivered whole gives
  the assistant text and the artifact; the same bytes cut inside each of the three
  records give an empty assistant message and no artifact.
\<close>

theorem cut_records_are_lost:
  "concat cutRecords = concat [wholeText]
   \<and> map content (messages (sendMessage json_fragment
         (env0 (Response True (Some ([wholeText], Done)))) (typed ''Create a login form'')))
       = [JStr ''Create a login form'', JStr ''Sure, here is a form'']
   \<and> generatedHtml (sendMessage json_fragment
         (env0 (Response True (Some ([wholeText], Done)))) (typed ''Create a login form''))
       = JStr ''<form></form>''
   \<and> map content (messages (sendMessage json_fragment
         (env0 (Response True (Some (cutRecords, Done)))) (typed ''Create a login form'')))
       = [JStr ''Create a login form'', JStr []]
   \<and> generatedHtml (sendMessage json_fragment
         (env0 (Response True (Some (cutRecords, Done)))) (typed ''Create a login form''))
       = JStr []"
  by code_simp

subsection \<open>Events after the final one\<close>

text \<open>
  C2. The \<^verbatim>\<open>break\<close> of the \<^verbatim>\<open>complete\<close> branch leaves the loop over the lines of
  the current chunk, and the read loop goes on. A \<^verbatim>\<open>text_chunk\<close> record that arrives
  in a chunk after the one with the \<^verbatim>\<open>complete\<close> record is applied and overwrites
  the final text; the same record in the same chunk as the \<^verbatim>\<open>complete\<close> record is
  not.
\<close>

theorem event_after_complete_is_applied:
  "map content (messages (sendMessage json_fragment
       (env0 (Response True (Some ([rec_complete @ [LF, LF], rec_late @ [LF, LF]], Done))))
       (typed ''Create a login form'')))
     = [JStr ''Create a login form'', JStr ''late'']
   \<and> map content (messages (sendMessage json_fragment
       (env0 (Response True (Some ([rec_complete @ [LF, LF] @ rec_late @ [LF, LF]], Done))))
       (typed ''Create a login form'')))
     = [JStr ''Create a login form'', JStr ''Sure, here is a form'']"
  by code_simp

subsection \<open>The conversation id\<close>

text \<open>
  C3 as the specification states it does not hold: the \<^verbatim>\<open>complete\<close> branch calls
  \<^verbatim>\<open>setConversationId\<close> without looking at the current value. A page whose
  conversation id is \<^verbatim>\<open>c1\<close> has \<^verbatim>\<open>c2\<close> after an exchange whose \<^verbatim>\<open>complete\<close>
  record carries \<^verbatim>\<open>c2\<close>.
\<close>

theorem complete_overwrites_conversation_id:
  "conversationId (sendMessage json_fragment
       (env0 (Response True (Some ([rec_other @ [LF, LF]], Done))))
       ((typed ''again'')\<lparr> conversationId := JStr ''c1'' \<rparr>))
     = JStr ''c2''"
  by code_simp

text \<open>
  C3, as the code has it. After a call of \<^verbatim>\<open>sendMessage\<close> the conversation id is the
  \<^verbatim>\<open>conversation_id\<close> of the last \<open>Complete\<close> the exchange applied, whether or not
  an id was assigned before, and it is what it was when the call is rejected, when the
  exchange fails before any event, and when no \<open>Complete\<close> is applied. The request of a
  call carries the conversation id of the state the call starts from when that id is
  truthy, and no id otherwise.
\<close>

theorem conversation_id_is_last_complete:
  "conversationId (sendMessage parse e s)
     = (if rejected s then conversationId s
        else lastCid (conversationId s) (applied parse (fetch e (requestBody s))))
   \<and> conversation_id (requestBody s)
     = (if truthy (conversationId s) then conversationId s else JUndefined)"
proof -
  have "conversationId (sendMessage parse e s)
      = lastCid (conversationId s) (applied parse (fetch e (requestBody s)))" if "\<not> rejected s"
  proof (cases "fetch e (requestBody s)")
    case FetchRejects
    then show ?thesis using that
      by (simp add: sendMessage_def tryBlock_def finallyBlock_def catchBlock_def begin_send_def)
  next
    case (Response ok body)
    show ?thesis
    proof (cases "ok \<and> body \<noteq> None")
      case False
      with Response that show ?thesis
        by (cases ok; cases body)
           (simp_all add: sendMessage_def tryBlock_def finallyBlock_def catchBlock_def
              begin_send_def)
    next
      case True
      then obtain chunks ending where r: "fetch e (requestBody s) = Response True (Some (chunks, ending))"
        using Response by (cases body) auto
      with that show ?thesis
        by (cases ending)
           (simp_all add: sendMessage_def tryBlock_streams conversationId_applyEvents
              finallyBlock_def catchBlock_def begin_send_def)
    qed
  qed
  then show ?thesis by (simp add: sendMessage_def requestBody_def)
qed

subsection \<open>Message ids\<close>

text \<open>
  C4. The ids are the decimal digits of \<^verbatim>\<open>Date.now()\<close>, read once for the user
  message and once more for the placeholder after the response has arrived. When both
  readings are the same millisecond the two messages share their id, and the
  \<^verbatim>\<open>map\<close> that is meant to update the streaming message rewrites the user message
  too: its content becomes the assistant's text.
\<close>

theorem same_reading_same_id:
  "map (\<lambda>m. (id_msg m, role m, content m))
     (messages (sendMessage json_fragment
        \<lparr> nowUser = 1000, dateUser = 1000,
          fetch = (\<lambda>req. Response True (Some ([rec_text @ [LF, LF]], Done))),
          nowStream = 1000, dateStream = 1000, nowError = 1000, dateError = 1000 \<rparr>
        (typed ''Create a login form'')))
   = [(''1000'', User, JStr ''Sure, here is a form''),
      (''1000'', Assistant, JStr ''Sure, here is a form'')]"
  by code_simp

subsection \<open>The guard\<close>

text \<open>
  C5. While an exchange is loading or streaming, \<^verbatim>\<open>sendMessage\<close> returns at its
  guard: the whole state, and with it the transcript, the artifact and the conversation
  id, is what it was, whatever the input, the clock and the network would have been.
\<close>

theorem send_while_busy_is_noop:
  "loading s \<or> isStreaming s \<Longrightarrow> sendMessage parse e s = s"
  by (simp add: sendMessage_def rejected_def)

theorem send_while_busy_is_noop_witness:
  "sendMessage (\<lambda>t. None)
     \<lparr> nowUser = 5, dateUser = 5, fetch = (\<lambda>req. FetchRejects), nowStream = 6, dateStream = 6,
       nowError = 7, dateError = 7 \<rparr>
     (initial\<lparr> input := ''hello'', loading := True \<rparr>)
   = initial\<lparr> input := ''hello'', loading := True \<rparr>"
  using send_while_busy_is_noop [of "initial\<lparr> input := ''hello'', loading := True \<rparr>"]
  by simp

subsection \<open>Transport failures\<close>



subsection \<open>The login-form example\<close>

text \<open>
  C7, as the code has it. The page is fresh and the text typed in is
  \<^verbatim>\<open>Create a login form\<close>. The response holds the three events of the example, a
  \<open>TextChunk\<close> with \<^verbatim>\<open>Sure, here is a form\<close>, an \<open>HtmlChunk\<close> with the form, and a
  \<open>Complete\<close> with the same text, the same form and \<^verbatim>\<open>is_ui\<close> true, and it is
  delivered in chunks that end at line feeds and do not begin with a byte order mark,
  so that no record is cut. Then the request carries the typed text, and the transcript
  ends with two messages: the user's, with the id and the timestamp of its clock
  readings, and with the typed text when the two ids differ, and the assistant's, marked
  as a generated artifact, with the final text as its content. The stored artifact is
  the form, the conversation id is the one of the \<open>Complete\<close>, and the page is idle.
\<close>

theorem login_form_example:
  assumes "eventsOf parse (utf8 (concat cs)) =
      [TextChunk (JStr ''Sure, here is a form'') cid,
       HtmlChunk (JStr ''<form></form>''),
       Complete cid' (JStr ''<form></form>'') (JStr ''Sure, here is a form'') (JBool True)]"
    and "aligned cs" and "noBOM cs"
    and "s' = sendMessage parse (e\<lparr> fetch := \<lambda>req. Response True (Some (cs, Done)) \<rparr>)
                (typed ''Create a login form'')"
  shows "message (requestBody (typed ''Create a login form'')) = ''Create a login form''
       \<and> length (messages s') = 2
       \<and> id_msg (messages s' ! 0) = toString (nowUser e)
       \<and> role (messages s' ! 0) = User
       \<and> timestamp (messages s' ! 0) = dateUser e
       \<and> (nowUser e \<noteq> nowStream e
            \<longrightarrow> content (messages s' ! 0) = JStr ''Create a login form'')
       \<and> id_msg (messages s' ! 1) = toString (nowStream e)
       \<and> role (messages s' ! 1) = Assistant
       \<and> content (messages s' ! 1) = JStr ''Sure, here is a form''
       \<and> is_generated_ui (messages s' ! 1) = JBool True
       \<and> generatedHtml s' = JStr ''<form></form>''
       \<and> conversationId s' = cid'
       \<and> \<not> loading s' \<and> \<not> isStreaming s'"
proof -
  let ?e = "e\<lparr> fetch := \<lambda>req. Response True (Some (cs, Done)) \<rparr>"
  have "completeLast (eventsOf parse (utf8 (concat cs)))"
    by (simp add: assms(1))
  with assms(2,3) have "appliedChunks parse cs = eventsOf parse (utf8 (concat cs))"
    by (rule appliedChunks_aligned)
  then have "s' = finallyBlock (applyEvents (toString (nowStream ?e))
      (eventsOf parse (utf8 (concat cs)))
      ((begin_send ?e (typed ''Create a login form''))
         \<lparr> messages := messages (begin_send ?e (typed ''Create a login form''))
              @ [streamingMessage ?e] \<rparr>))"
    using not_rejected_typed
    by (simp add: assms(4) sendMessage_def tryBlock_def whileRead_applied)
  then show ?thesis
    by (simp add: assms(1) applyEvents_def finallyBlock_def begin_send_def typed_def
        initial_def userMessage_def streamingMessage_def mapById_def requestBody_def Let_def
        toString_eq_iff)
qed

theorem login_form_example_witness:
  "eventsOf json_fragment (utf8 (concat byRecord)) =
      [TextChunk (JStr ''Sure, here is a form'') (JStr ''c1''),
       HtmlChunk (JStr ''<form></form>''),
       Complete (JStr ''c1'') (JStr ''<form></form>'') (JStr ''Sure, here is a form'')
         (JBool True)]
   \<and> aligned byRecord \<and> noBOM byRecord
   \<and> nowUser (env0 FetchRejects) \<noteq> nowStream (env0 FetchRejects)
   \<and> length (messages (sendMessage json_fragment
         (env0 (Response True (Some (byRecord, Done)))) (typed ''Create a login form''))) = 2
   \<and> content (messages (sendMessage json_fragment
         (env0 (Response True (Some (byRecord, Done)))) (typed ''Create a login form'')) ! 0)
       = JStr ''Create a login form''
   \<and> content (messages (sendMessage json_fragment
         (env0 (Response True (Some (byRecord, Done)))) (typed ''Create a login form'')) ! 1)
       = JStr ''Sure, here is a form''
   \<and> is_generated_ui (messages (sendMessage json_fragment
         (env0 (Response True (Some (byRecord, Done)))) (typed ''Create a login form'')) ! 1)
       = JBool True
   \<and> generatedHtml (sendMessage json_fragment
         (env0 (Response True (Some (byRecord, Done)))) (typed ''Create a login form''))
       = JStr ''<form></form>''"
proof -
  have h1: "eventsOf json_fragment (utf8 (concat byRecord)) =
      [TextChunk (JStr ''Sure, here is a form'') (JStr ''c1''),
       HtmlChunk (JStr ''<form></form>''),
       Complete (JStr ''c1'') (JStr ''<form></form>'') (JStr ''Sure, here is a form'')
         (JBool True)]"
    by code_simp
  have h2: "aligned byRecord" by (simp add: byRecord_def)
  have h3: "noBOM byRecord" by code_simp
  have h4: "sendMessage json_fragment (env0 (Response True (Some (byRecord, Done))))
        (typed ''Create a login form'')
      = sendMessage json_fragment
          ((env0 FetchRejects)\<lparr> fetch := \<lambda>req. Response True (Some (byRecord, Done)) \<rparr>)
          (typed ''Create a login form'')"
    by (simp add: env0_def)
  have h5: "nowUser (env0 FetchRejects) \<noteq> nowStream (env0 FetchRejects)"
    by (simp add: env0_def)
  from login_form_example [OF h1 h2 h3 h4] h1 h2 h3 h5 show ?thesis by simp
qed

text \<open>
  C7 as the specification states it, for the stream whatever its delivery, does not
  hold. The bytes of the same response, with the same three events, delivered in three
  reads that cut the second and the third record, leave the assistant message unmarked
  and the artifact empty.
\<close>

theorem login_form_cut_delivery:
  "concat cutTwice = wholeText
   \<and> eventsOf json_fragment (utf8 (concat cutTwice)) =
      [TextChunk (JStr ''Sure, here is a form'') (JStr ''c1''),
       HtmlChunk (JStr ''<form></form>''),
       Complete (JStr ''c1'') (JStr ''<form></form>'') (JStr ''Sure, here is a form'')
         (JBool True)]
   \<and> map is_generated_ui (messages (sendMessage json_fragment
         (env0 (Response True (Some (cutTwice, Done)))) (typed ''Create a login form'')))
       = [JUndefined, JBool False]
   \<and> generatedHtml (sendMessage json_fragment
         (env0 (Response True (Some (cutTwice, Done)))) (typed ''Create a login form''))
       = JStr []"
  by code_simp

subsection \<open>Applying an artifact event twice\<close>

text \<open>
  C8, as the code has it. An \<open>HtmlChunk\<close> stores its payload, and applying the same
  event a second time gives the state the first application gave: the payload, the
  transcript and every other cell. The page keeps no version of the artifact.
\<close>

theorem html_chunk_twice_is_once:
  "generatedHtml (applyEvent sid (HtmlChunk p) s) = p
   \<and> applyEvent sid (HtmlChunk p) (applyEvent sid (HtmlChunk p) s)
       = applyEvent sid (HtmlChunk p) s"
  by (simp add: mapById_def comp_def)

text \<open>
  C8 as the specification states it, with a version that grows at each application,
  has nothing in the code to stand on: after the second application the state equals
  the state after the first, so no part of it has grown.
\<close>

theorem second_html_chunk_changes_nothing:
  "applyEvent ''1250'' (HtmlChunk (JStr ''<form></form>''))
     (applyEvent ''1250'' (HtmlChunk (JStr ''<form></form>''))
        (initial\<lparr> messages := [streamingMessage (env0 FetchRejects)] \<rparr>))
   = applyEvent ''1250'' (HtmlChunk (JStr ''<form></form>''))
        (initial\<lparr> messages := [streamingMessage (env0 FetchRejects)] \<rparr>)"
  by (simp add: mapById_def)

subsection \<open>Records that fail to parse\<close>

text \<open>
  C9. A line that starts with the marker and whose payload \<^verbatim>\<open>JSON.parse\<close> rejects
  decodes to no event. The loop over the lines passes it with the state as it is and
  goes on: the lines after it are processed as if it were not there, and a record right
  after it that decodes to an event has that event applied, the loop ending there if it
  is a \<open>Complete\<close> and going on otherwise. For the whole call: a body in which a chunk
  has such a line, anywhere among its lines, ends the call in the state of the body in
  which that chunk lacks it.
\<close>

theorem unparsable_record_is_skipped:
  assumes "startsWith bad ''data: ''" and "parse (drop 6 bad) = None"
    and "decode parse good = Some ev"
    and "split_on LF (decodeChunk c) = before @ bad # after"
    and "split_on LF (decodeChunk c') = before @ after"
  shows "decode parse bad = None
       \<and> forLines parse sid [bad] s = s
       \<and> forLines parse sid (bad # lines) s = forLines parse sid lines s
       \<and> forLines parse sid (bad # good # lines) s
           = (if isComplete ev then applyEvent sid ev s
              else forLines parse sid lines (applyEvent sid ev s))
       \<and> sendMessage parse
           (e\<lparr> fetch := \<lambda>req. Response ok (Some (cs1 @ [c] @ cs2, en)) \<rparr>) s0
         = sendMessage parse
           (e\<lparr> fetch := \<lambda>req. Response ok (Some (cs1 @ [c'] @ cs2, en)) \<rparr>) s0"
proof -
  have none: "decode parse bad = None"
    using assms(1,2) by (rule decode_unparsed)
  have "appliedLines parse (split_on LF (decodeChunk c))
      = appliedLines parse (split_on LF (decodeChunk c'))"
    using appliedLines_skip [OF none] by (simp add: assms(4,5))
  then have "appliedChunks parse (cs1 @ [c] @ cs2) = appliedChunks parse (cs1 @ [c'] @ cs2)"
    by (simp add: appliedChunks_def)
  then have "sendMessage parse
           (e\<lparr> fetch := \<lambda>req. Response ok (Some (cs1 @ [c] @ cs2, en)) \<rparr>) s0
         = sendMessage parse
           (e\<lparr> fetch := \<lambda>req. Response ok (Some (cs1 @ [c'] @ cs2, en)) \<rparr>) s0"
    by (rule sendMessage_same_events)
  with none assms(3) show ?thesis by simp
qed

theorem unparsable_record_is_skipped_witness:
  "startsWith rec_bad ''data: '' \<and> json_fragment (drop 6 rec_bad) = None
   \<and> decode json_fragment rec_other
       = Some (Complete (JStr ''c2'') JUndefined (JStr ''ok'') (JBool False))
   \<and> split_on LF (decodeChunk chunkWithBad) = [rec_late] @ rec_bad # [rec_other, [], []]
   \<and> split_on LF (decodeChunk chunkWithout) = [rec_late] @ [rec_other, [], []]
   \<and> forLines json_fragment ''1250'' (rec_bad # rec_other # [[], []])
        ((typed ''hello'')\<lparr> messages := [streamingMessage (env0 FetchRejects)] \<rparr>)
     = applyEvent ''1250'' (Complete (JStr ''c2'') JUndefined (JStr ''ok'') (JBool False))
        ((typed ''hello'')\<lparr> messages := [streamingMessage (env0 FetchRejects)] \<rparr>)
   \<and> map content (messages (sendMessage json_fragment
         (env0 (Response True (Some ([chunkWithBad], Done)))) (typed ''hello'')))
       = [JStr ''hello'', JStr ''ok'']
   \<and> conversationId (sendMessage json_fragment
         (env0 (Response True (Some ([chunkWithBad], Done)))) (typed ''hello''))
       = JStr ''c2''"
proof -
  let ?ev = "Complete (JStr ''c2'') JUndefined (JStr ''ok'') (JBool False)"
  have h1: "startsWith rec_bad ''data: ''" by code_simp
  have h2: "json_fragment (drop 6 rec_bad) = None" by code_simp
  have h3: "decode json_fragment rec_other = Some ?ev" by code_simp
  have h4: "split_on LF (decodeChunk chunkWithBad) = [rec_late] @ rec_bad # [rec_other, [], []]"
    by code_simp
  have h5: "split_on LF (decodeChunk chunkWithout) = [rec_late] @ [rec_other, [], []]"
    by code_simp
  have without: "map content (messages (sendMessage json_fragment
         (env0 (Response True (Some ([chunkWithout], Done)))) (typed ''hello'')))
       = [JStr ''hello'', JStr ''ok'']
     \<and> conversationId (sendMessage json_fragment
         (env0 (Response True (Some ([chunkWithout], Done)))) (typed ''hello''))
       = JStr ''c2''"
    by code_simp
  note t = unparsable_record_is_skipped [OF h1 h2 h3 h4 h5, where sid = "''1250''"
      and lines = "[[], []]"
      and s = "(typed ''hello'')\<lparr> messages := [streamingMessage (env0 FetchRejects)] \<rparr>"
      and e = "env0 FetchRejects" and ok = True and ?cs1.0 = "[]" and ?cs2.0 = "[]"
      and en = Done and ?s0.0 = "typed ''hello''"]
  have env: "(env0 FetchRejects)\<lparr> fetch := \<lambda>req. r \<rparr> = env0 r" for r
    by (simp add: env0_def)
  from t have run: "sendMessage json_fragment
        (env0 (Response True (Some ([chunkWithBad], Done)))) (typed ''hello'')
      = sendMessage json_fragment
        (env0 (Response True (Some ([chunkWithout], Done)))) (typed ''hello'')"
    by (simp only: env append_Nil append_Nil2)
  from t have "forLines json_fragment ''1250'' (rec_bad # rec_other # [[], []])
        ((typed ''hello'')\<lparr> messages := [streamingMessage (env0 FetchRejects)] \<rparr>)
     = (if isComplete ?ev
        then applyEvent ''1250'' ?ev
          ((typed ''hello'')\<lparr> messages := [streamingMessage (env0 FetchRejects)] \<rparr>)
        else forLines json_fragment ''1250'' [[], []]
          (applyEvent ''1250'' ?ev
            ((typed ''hello'')\<lparr> messages := [streamingMessage (env0 FetchRejects)] \<rparr>)))"
    by blast
  then have line: "forLines json_fragment ''1250'' (rec_bad # rec_other # [[], []])
        ((typed ''hello'')\<lparr> messages := [streamingMessage (env0 FetchRejects)] \<rparr>)
     = applyEvent ''1250'' ?ev
        ((typed ''hello'')\<lparr> messages := [streamingMessage (env0 FetchRejects)] \<rparr>)"
    by (simp only: isComplete.simps if_True)
  from h1 h2 h3 h4 h5 line without show ?thesis
    by (simp only: run simp_thms)
qed

subsection \<open>The placeholder after a failed read\<close>

text \<open>
  C10, as the code has it. When a read is rejected after the placeholder has been
  appended and before any \<open>Complete\<close> has been applied, the call adds three messages to
  the transcript: the user message, the placeholder, still in its place with its id,
  role and timestamp and holding the \<^verbatim>\<open>accumulated_text\<close> of the last \<open>TextChunk\<close>
  applied (the empty text if there was none), and the error notice as an assistant
  message of its own.
\<close>

theorem read_failure_keeps_placeholder:
  assumes "\<not> rejected s"
    and "fetch e (requestBody s) = Response True (Some (cs, ReadFails))"
    and "list_all (\<lambda>ev. \<not> isComplete ev) (appliedChunks parse cs)"
  shows "length (messages (sendMessage parse e s)) = length (messages s) + 3
       \<and> id_msg (messages (sendMessage parse e s) ! length (messages s)) = toString (nowUser e)
       \<and> role (messages (sendMessage parse e s) ! length (messages s)) = User
       \<and> id_msg (messages (sendMessage parse e s) ! (length (messages s) + 1))
           = toString (nowStream e)
       \<and> role (messages (sendMessage parse e s) ! (length (messages s) + 1)) = Assistant
       \<and> timestamp (messages (sendMessage parse e s) ! (length (messages s) + 1))
           = dateStream e
       \<and> content (messages (sendMessage parse e s) ! (length (messages s) + 1))
           = accText (JStr []) (appliedChunks parse cs)
       \<and> id_msg (messages (sendMessage parse e s) ! (length (messages s) + 2))
           = toString (nowError e)
       \<and> role (messages (sendMessage parse e s) ! (length (messages s) + 2)) = Assistant
       \<and> content (messages (sendMessage parse e s) ! (length (messages s) + 2))
           = JStr errorNotice
       \<and> timestamp (messages (sendMessage parse e s) ! (length (messages s) + 2))
           = dateError e"
proof -
  let ?sid = "toString (nowStream e)"
  let ?es = "appliedChunks parse cs"
  let ?f = "\<lambda>msg. if id_msg msg = ?sid then fold rebuild ?es msg else msg"
  have m: "messages (sendMessage parse e s)
      = map ?f (messages s) @ [?f (userMessage e s), ?f (streamingMessage e), errorMessage e]"
    using assms(1)
    by (simp add: sendMessage_def tryBlock_streams [OF assms(2)] catchBlock_def
        finallyBlock_def begin_send_def messages_applyEvents mapById_def)
  have u: "id_msg (?f (userMessage e s)) = toString (nowUser e)"
    "role (?f (userMessage e s)) = User"
    by (simp_all add: userMessage_def)
  have p: "?f (streamingMessage e) = fold rebuild ?es (streamingMessage e)"
    by (simp add: streamingMessage_def)
  have c: "content (streamingMessage e) = JStr []" "role (streamingMessage e) = Assistant"
    "id_msg (streamingMessage e) = ?sid" "timestamp (streamingMessage e) = dateStream e"
    by (simp_all add: streamingMessage_def)
  have n: "id_msg (errorMessage e) = toString (nowError e)" "role (errorMessage e) = Assistant"
    "content (errorMessage e) = JStr errorNotice" "timestamp (errorMessage e) = dateError e"
    by (simp_all add: errorMessage_def)
  show ?thesis
    unfolding m using u assms(3)
    by (simp add: nth_append p c n content_fold_rebuild)
qed

theorem read_failure_keeps_placeholder_witness:
  "\<not> rejected (typed ''hello'')
   \<and> fetch (env0 (Response True (Some ([rec_late @ [LF, LF]], ReadFails))))
         (requestBody (typed ''hello''))
       = Response True (Some ([rec_late @ [LF, LF]], ReadFails))
   \<and> list_all (\<lambda>ev. \<not> isComplete ev) (appliedChunks json_fragment [rec_late @ [LF, LF]])
   \<and> accText (JStr []) (appliedChunks json_fragment [rec_late @ [LF, LF]]) = JStr ''late''
   \<and> length (messages (sendMessage json_fragment
         (env0 (Response True (Some ([rec_late @ [LF, LF]], ReadFails)))) (typed ''hello''))) = 3
   \<and> content (messages (sendMessage json_fragment
         (env0 (Response True (Some ([rec_late @ [LF, LF]], ReadFails)))) (typed ''hello'')) ! 1)
       = JStr ''late''
   \<and> role (messages (sendMessage json_fragment
         (env0 (Response True (Some ([rec_late @ [LF, LF]], ReadFails)))) (typed ''hello'')) ! 2)
       = Assistant
   \<and> content (messages (sendMessage json_fragment
         (env0 (Response True (Some ([rec_late @ [LF, LF]], ReadFails)))) (typed ''hello'')) ! 2)
       = JStr errorNotice"
proof -
  let ?e = "env0 (Response True (Some ([rec_late @ [LF, LF]], ReadFails)))"
  have h1: "\<not> rejected (typed ''hello'')"
    by code_simp
  have h2: "fetch ?e (requestBody (typed ''hello''))
      = Response True (Some ([rec_late @ [LF, LF]], ReadFails))"
    by (simp add: env0_def)
  have h3: "list_all (\<lambda>ev. \<not> isComplete ev) (appliedChunks json_fragment [rec_late @ [LF, LF]])"
    by code_simp
  have h4: "accText (JStr []) (appliedChunks json_fragment [rec_late @ [LF, LF]]) = JStr ''late''"
    by code_simp
  have h5: "length (messages (typed ''hello'')) = 0"
    by (simp add: typed_def initial_def)
  have a0: "(0::nat) + 3 = 3" "(0::nat) + 1 = 1" "(0::nat) + 2 = 2"
    by simp_all
  note t = read_failure_keeps_placeholder [OF h1 h2 h3, unfolded h5 a0 h4]
  from t h1 h2 h3 h4 show ?thesis
    by (simp only: simp_thms)
qed

text \<open>
  C10 as the specification states it, for every failure after the placeholder, does
  not hold. The read loop goes on after a \<open>Complete\<close>, so a read can fail after one has
  been applied; the placeholder then holds the final text \<^verbatim>\<open>ok\<close> of that event, not
  the text \<^verbatim>\<open>late\<close> of the last \<open>TextChunk\<close>.
\<close>

theorem read_failure_after_complete:
  "accText (JStr [])
     (appliedChunks json_fragment [rec_late @ [LF, LF], rec_other @ [LF, LF]]) = JStr ''late''
   \<and> map content (messages (sendMessage json_fragment
         (env0 (Response True
            (Some ([rec_late @ [LF, LF], rec_other @ [LF, LF]], ReadFails))))
         (typed ''hello'')))
       = [JStr ''hello'', JStr ''ok'', JStr errorNotice]"
  by code_simp

end
